theory Spec2Isabelle
  imports Main "HOL-Library.Word"
begin

unbundle bit_operations_syntax

section \<open>Go values shared by the embedded functions\<close>

text \<open>
  A Go \<open>error\<close> is \<open>nil\<close> or a value; the values the embedded code handles are
  \<open>syscall.Errno\<close> numbers. A run-time panic of the Go code is a value of its own, so
  that a function which panics is seen to do so.
\<close>

datatype goerror = Errno nat | ErrOther string

type_synonym error = "goerror option"

datatype panic = IndexOutOfRange | SliceBoundsOutOfRange | NilDereference

definition EPERM :: goerror where
  "EPERM = Errno 1"

definition EINTR :: goerror where
  "EINTR = Errno 4"

text \<open>The conversion \<open>syscall.Errno(e1)\<close> guarded by \<open>e1 != 0\<close>, as the syscall wrappers do.\<close>

definition errnoErr :: "nat \<Rightarrow> error" where
  "errnoErr e1 = (if e1 \<noteq> 0 then Some (Errno e1) else None)"

section \<open>fuse/poll_darwin.go: the poll hack\<close>

record pollFd =
  Fd :: "32 word"
  Events :: "16 word"
  Revents :: "16 word"

text \<open>
  The system calls \<open>pollHack\<close> issues, in order. What the kernel answers is a parameter:
  the raw results \<open>(r0, e1)\<close> of \<open>open\<close> and \<open>poll\<close>. The constant \<open>pollHackName\<close> and
  \<open>filepath.Join\<close> are not part of the embedded file and are parameters too.
\<close>

datatype syscall = Open string int int | Poll "pollFd list" int | Close int

record kernel =
  k_open :: "string \<Rightarrow> int \<Rightarrow> int \<Rightarrow> int \<times> nat"
  k_poll :: "pollFd list \<Rightarrow> int \<Rightarrow> int \<times> nat"
  Join :: "string \<Rightarrow> string \<Rightarrow> string"
  pollHackName :: string

definition O_RDONLY :: int where
  "O_RDONLY = 0"

definition POLLIN :: "16 word" where
  "POLLIN = 0x1"

definition POLLPRI :: "16 word" where
  "POLLPRI = 0x2"

definition POLLOUT :: "16 word" where
  "POLLOUT = 0x4"

text \<open>\<open>syscall.Open\<close>: the descriptor and the error made from the errno.\<close>

definition syscall_Open :: "kernel \<Rightarrow> string \<Rightarrow> int \<Rightarrow> int \<Rightarrow> (int \<times> error) \<times> syscall list" where
  "syscall_Open k path mode perm =
     (case k_open k path mode perm of (r0, e1) \<Rightarrow> ((r0, errnoErr e1), [Open path mode perm]))"

text \<open>\<open>sysPoll\<close> takes the address of \<open>fds[0]\<close>, which panics on an empty slice.\<close>

definition sysPoll :: "kernel \<Rightarrow> pollFd list \<Rightarrow> int \<Rightarrow> panic + ((int \<times> error) \<times> syscall list)" where
  "sysPoll k fds timeout =
     (if fds = [] then Inl IndexOutOfRange
      else case k_poll k fds timeout of (r0, e1) \<Rightarrow>
        Inr ((r0, errnoErr e1), [Poll fds timeout]))"

text \<open>
  \<open>pollHack\<close> returns its error together with the system calls it made. The results
  of \<open>sysPoll\<close> and of \<open>syscall.Close\<close> are dropped, as in the source.
\<close>

definition pollHack :: "kernel \<Rightarrow> string \<Rightarrow> panic + (error \<times> syscall list)" where
  "pollHack k mountPoint =
     (case syscall_Open k (Join k mountPoint (pollHackName k)) O_RDONLY 0 of
        ((fd, err), tr) \<Rightarrow>
          if err = Some EPERM then Inr (None, tr)
          else if err \<noteq> None then Inr (err, tr)
          else
            let pollData = [\<lparr>Fd = word_of_int fd, Events = POLLIN OR POLLPRI OR POLLOUT, Revents = 0\<rparr>]
            in case sysPoll k pollData 0 of
                 Inl p \<Rightarrow> Inl p
               | Inr (_, tr') \<Rightarrow> Inr (None, tr @ tr' @ [Close fd]))"



text \<open>A kernel that denies the probe open with EPERM, and one that grants it descriptor 5.\<close>

definition sandboxed_kernel :: kernel where
  "sandboxed_kernel =
     \<lparr>k_open = (\<lambda>_ _ _. (-1, 1)), k_poll = (\<lambda>_ _. (0, 0)),
      Join = (\<lambda>a b. a @ ''/'' @ b), pollHackName = ''.go-fuse-epoll-hack''\<rparr>"

definition granting_kernel :: kernel where
  "granting_kernel =
     \<lparr>k_open = (\<lambda>_ _ _. (5, 0)), k_poll = (\<lambda>_ _. (-1, 38)),
      Join = (\<lambda>a b. a @ ''/'' @ b), pollHackName = ''.go-fuse-epoll-hack''\<rparr>"

definition enoent_kernel :: kernel where
  "enoent_kernel =
     \<lparr>k_open = (\<lambda>_ _ _. (-1, 2)), k_poll = (\<lambda>_ _. (0, 0)),
      Join = (\<lambda>a b. a @ ''/'' @ b), pollHackName = ''.go-fuse-epoll-hack''\<rparr>"

section \<open>The xattr shims (getxattr, listxattr and setxattr wrappers)\<close>

text \<open>
  A Go byte slice: the backing array from the slice's start (its length is the capacity)
  and the slice's length. A nil slice is \<open>None\<close> where the source returns one.
\<close>

record slice =
  arr :: "8 word list"
  len :: nat

definition cap :: "slice \<Rightarrow> nat" where
  "cap d = length (arr d)"

definition bytes_of :: "slice \<Rightarrow> 8 word list" where
  "bytes_of d = take (len d) (arr d)"

text \<open>\<open>make([]byte, n)\<close>: n zero bytes, capacity n.\<close>

definition make_bytes :: "nat \<Rightarrow> slice" where
  "make_bytes n = \<lparr>arr = replicate n 0, len = n\<rparr>"

text \<open>\<open>d[:hi]\<close> panics unless \<open>0 \<le> hi \<le> cap(d)\<close>.\<close>

definition slice_upto :: "slice \<Rightarrow> int \<Rightarrow> panic + slice" where
  "slice_upto d hi =
     (if hi < 0 \<or> int (cap d) < hi then Inl SliceBoundsOutOfRange
      else Inr (d\<lparr>len := nat hi\<rparr>))"

text \<open>The kernel stores at most \<open>len(d)\<close> bytes at the start of the buffer it was given.\<close>

definition kwrite :: "8 word list \<Rightarrow> slice \<Rightarrow> slice" where
  "kwrite bs d = d\<lparr>arr := take (len d) bs @ drop (min (length bs) (len d)) (arr d)\<rparr>"

text \<open>
  The kernel's side of the three system calls is a parameter: the raw result \<open>r1\<close>, the
  errno and the bytes stored in the buffer, for the path, the attribute and the buffer
  length given. The first argument counts the system calls made so far, so that the
  kernel may answer the same question differently the next time it is asked.
\<close>

record xkernel =
  k_getxattr :: "nat \<Rightarrow> string \<Rightarrow> string \<Rightarrow> nat \<Rightarrow> 64 word \<times> nat \<times> 8 word list"
  k_listxattr :: "nat \<Rightarrow> string \<Rightarrow> nat \<Rightarrow> 64 word \<times> nat \<times> 8 word list"
  k_setxattr :: "nat \<Rightarrow> string \<Rightarrow> string \<Rightarrow> 8 word list \<Rightarrow> int \<Rightarrow> nat"

definition EINVAL :: int where
  "EINVAL = 22"

text \<open>\<open>syscall.BytePtrFromString\<close> fails exactly on a string that holds a NUL byte.\<close>

definition hasNUL :: "string \<Rightarrow> bool" where
  "hasNUL s = (CHR 0x00 \<in> set s)"

text \<open>
  \<open>getxattr\<close> returns \<open>(sz, errno)\<close>, the buffer as the kernel left it and the new count
  of system calls. \<open>&dest[0]\<close> is evaluated before the system call is made and panics
  on an empty slice. \<open>int(size)\<close> reads the 64-bit result as a signed number.
\<close>

definition getxattr ::
  "xkernel \<Rightarrow> nat \<Rightarrow> string \<Rightarrow> string \<Rightarrow> slice \<Rightarrow> panic + ((int \<times> int) \<times> slice \<times> nat)" where
  "getxattr k n path attr dest =
     (if hasNUL path then Inr ((0, EINVAL), dest, n)
      else if hasNUL attr then Inr ((0, EINVAL), dest, n)
      else if len dest = 0 then Inl IndexOutOfRange
      else case k_getxattr k n path attr (len dest) of
        (rsize, errNo, bs) \<Rightarrow> Inr ((sint rsize, int errNo), kwrite bs dest, Suc n))"

text \<open>The loop of \<open>GetXAttr\<close>: it may run for ever if the attribute keeps growing.\<close>

partial_function (option) GetXAttr_loop ::
  "xkernel \<Rightarrow> nat \<Rightarrow> string \<Rightarrow> string \<Rightarrow> slice \<Rightarrow> int \<Rightarrow> int \<Rightarrow>
     (panic + (slice \<times> int \<times> int \<times> nat)) option" where
  "GetXAttr_loop k n path attr dest sz errno =
     (if int (cap dest) < sz \<and> errno = 0 then
        (case getxattr k n path attr (make_bytes (nat sz)) of
           Inl p \<Rightarrow> Some (Inl p)
         | Inr ((sz', errno'), dest', n') \<Rightarrow> GetXAttr_loop k n' path attr dest' sz' errno')
      else Some (Inr (dest, sz, errno, n)))"

definition GetXAttr ::
  "xkernel \<Rightarrow> nat \<Rightarrow> string \<Rightarrow> string \<Rightarrow> slice \<Rightarrow> (panic + (slice option \<times> int)) option" where
  "GetXAttr k n path attr dest =
     (case getxattr k n path attr dest of
        Inl p \<Rightarrow> Some (Inl p)
      | Inr ((sz, errno), dest1, n1) \<Rightarrow>
          (case GetXAttr_loop k n1 path attr dest1 sz errno of
             None \<Rightarrow> None
           | Some (Inl p) \<Rightarrow> Some (Inl p)
           | Some (Inr (dest2, sz2, errno2, n2)) \<Rightarrow>
               if errno2 \<noteq> 0 then Some (Inr (None, errno2))
               else (case slice_upto dest2 sz2 of
                       Inl p \<Rightarrow> Some (Inl p)
                     | Inr v \<Rightarrow> Some (Inr (Some v, errno2)))))"

text \<open>\<open>listxattr\<close> passes a nil pointer for an empty buffer, so it never panics.\<close>

definition listxattr :: "xkernel \<Rightarrow> nat \<Rightarrow> string \<Rightarrow> slice \<Rightarrow> (int \<times> int) \<times> slice \<times> nat" where
  "listxattr k n path dest =
     (if hasNUL path then ((0, EINVAL), dest, n)
      else case k_listxattr k n path (len dest) of
        (rsize, errNo, bs) \<Rightarrow> ((sint rsize, int errNo), kwrite bs dest, Suc n))"

partial_function (option) ListXAttr_loop ::
  "xkernel \<Rightarrow> nat \<Rightarrow> string \<Rightarrow> slice \<Rightarrow> int \<Rightarrow> int \<Rightarrow> (slice \<times> int \<times> int \<times> nat) option" where
  "ListXAttr_loop k n path dest sz errno =
     (if int (cap dest) < sz \<and> errno = 0 then
        (case listxattr k n path (make_bytes (nat sz)) of
           ((sz', errno'), dest', n') \<Rightarrow> ListXAttr_loop k n' path dest' sz' errno')
      else Some (dest, sz, errno, n))"

text \<open>\<open>bytes.Split(s, []byte{0})\<close>: the pieces between the zero bytes; one empty piece for empty input.\<close>

fun bytes_Split0 :: "8 word list \<Rightarrow> 8 word list list" where
  "bytes_Split0 [] = [[]]"
| "bytes_Split0 (b # bs) =
     (if b = 0 then [] # bytes_Split0 bs
      else case bytes_Split0 bs of
             [] \<Rightarrow> [[b]]
           | piece # pieces \<Rightarrow> (b # piece) # pieces)"

definition string_of_bytes :: "8 word list \<Rightarrow> string" where
  "string_of_bytes v = map (\<lambda>b. char_of (unat b)) v"

definition ListXAttr :: "xkernel \<Rightarrow> nat \<Rightarrow> string \<Rightarrow> (panic + (string list option \<times> int)) option" where
  "ListXAttr k n path =
     (case listxattr k n path (make_bytes 0) of
        ((sz, errno), dest, n1) \<Rightarrow>
          if errno \<noteq> 0 then Some (Inr (None, errno))
          else (case ListXAttr_loop k n1 path dest sz errno of
                  None \<Rightarrow> None
                | Some (dest2, sz2, errno2, n2) \<Rightarrow>
                    (case slice_upto dest2 (sz2 - 1) of
                       Inl p \<Rightarrow> Some (Inl p)
                     | Inr dest3 \<Rightarrow>
                         Some (Inr (Some (map string_of_bytes (bytes_Split0 (bytes_of dest3))),
                                    errno2)))))"

text \<open>\<open>Setxattr\<close> takes \<open>&data[0]\<close> as \<open>getxattr\<close> takes \<open>&dest[0]\<close>.\<close>

definition Setxattr :: "xkernel \<Rightarrow> nat \<Rightarrow> string \<Rightarrow> string \<Rightarrow> slice \<Rightarrow> int \<Rightarrow> panic + int" where
  "Setxattr k n path attr data flags =
     (if hasNUL path then Inr EINVAL
      else if hasNUL attr then Inr EINVAL
      else if len data = 0 then Inl IndexOutOfRange
      else Inr (int (k_setxattr k n path attr (bytes_of data) flags)))"

text \<open>
  A kernel for a file that has the attribute \<open>user.a\<close> with the three-byte value
  \<open>abc\<close> and no other, and one for a file with no extended attribute at all.
\<close>

definition one_attr_kernel :: xkernel where
  "one_attr_kernel =
     \<lparr>k_getxattr = (\<lambda>_ _ _ n. if n = 0 then (3, 0, []) else if n < 3 then (-1, 34, [])
                               else (3, 0, [0x61, 0x62, 0x63])),
      k_listxattr = (\<lambda>_ _ n. if n = 0 then (7, 0, []) else if n < 7 then (-1, 34, [])
                             else (7, 0, [0x75, 0x73, 0x65, 0x72, 0x2E, 0x61, 0])),
      k_setxattr = (\<lambda>_ _ _ _ _. 0)\<rparr>"

definition no_attr_kernel :: xkernel where
  "no_attr_kernel =
     \<lparr>k_getxattr = (\<lambda>_ _ _ _. (-1, 61, [])),
      k_listxattr = (\<lambda>_ _ _. (0, 0, [])),
      k_setxattr = (\<lambda>_ _ _ _ _. 0)\<rparr>"

section \<open>The reply writer: \<open>systemWrite\<close> on Linux and on the other platforms\<close>

text \<open>
  The fields of \<open>Server\<close> and \<open>request\<close> that \<open>systemWrite\<close> reads or writes. The types
  of the fd-backed payload and of the read result are not part of the embedded files and
  stay type parameters; a nil pointer or interface is \<open>None\<close>.
\<close>

record Server =
  mountFd :: int
  canSplice :: bool

record ('fd, 'rr) request =
  outputBuf :: "8 word list"
  flatData :: "8 word list"
  fdData :: "'fd option"
  readResult :: "'rr option"
  status :: int

text \<open>
  What \<open>systemWrite\<close> does to the outside, in order: the write system calls on the mount
  descriptor, the splice attempt, the log line, the buffer taken from the pool, the read
  of the payload, and the call of \<open>readResult.Done\<close>.
\<close>

datatype event =
    SysWrite int "8 word list"
  | SysWritev int "8 word list list"
  | TrySplice
  | Println error
  | AllocOut "32 word"
  | FdBytes
  | Done

text \<open>
  The world: the events so far, the number of write system calls made on the mount
  descriptor, and the kernel's answer to each of them by its number (nil or an error).
\<close>

record world =
  trace :: "event list"
  answers :: "nat \<Rightarrow> error"
  clock :: nat

definition emit :: "event list \<Rightarrow> world \<Rightarrow> world" where
  "emit evs w = w\<lparr>trace := trace w @ evs\<rparr>"

text \<open>One write system call: the event, and the kernel's answer for this attempt.\<close>

definition attempt :: "event \<Rightarrow> world \<Rightarrow> error \<times> world" where
  "attempt ev w = (answers w (clock w), w\<lparr>trace := trace w @ [ev], clock := Suc (clock w)\<rparr>)"

definition syscall_Write :: "int \<Rightarrow> 8 word list \<Rightarrow> world \<Rightarrow> error \<times> world" where
  "syscall_Write fd buf = attempt (SysWrite fd buf)"

definition sys_writev :: "int \<Rightarrow> 8 word list list \<Rightarrow> world \<Rightarrow> error \<times> world" where
  "sys_writev fd packet = attempt (SysWritev fd packet)"

text \<open>
  Modelled from the spec: \<open>handleEINTR\<close> is called by \<open>systemWrite\<close> and is not part of
  the embedded files. The spec names it a retry loop (``EINTR on syscalls (retry
  loop)'', ``EINTR is retried transparently''): the closure is run again as long as it
  returns EINTR, and its first other result is returned. The loop need not end.
\<close>

partial_function (option) handleEINTR ::
  "(world \<Rightarrow> error \<times> world) \<Rightarrow> world \<Rightarrow> (error \<times> world) option" where
  "handleEINTR fn w =
     (case fn w of (err, w') \<Rightarrow> if err = Some EINTR then handleEINTR fn w' else Some (err, w'))"

text \<open>
  Modelled from the spec: \<open>writev\<close>, the wrapper of the writev system call, is called by
  \<open>systemWrite\<close> and is not part of the embedded files. It is a system call on the mount
  descriptor, for which the spec says ``EINTR is retried transparently'': the retry loop
  around one writev of the packet. The byte count is dropped by the caller.
\<close>

definition writev :: "int \<Rightarrow> 8 word list list \<Rightarrow> world \<Rightarrow> (error \<times> world) option" where
  "writev fd packet w = handleEINTR (sys_writev fd packet) w"

text \<open>
  The other helpers \<open>systemWrite\<close> calls are parameters: \<open>req.flatDataSize()\<close>,
  \<open>ms.trySplice\<close> (it gets the request by pointer, so it returns the request as it left
  it), \<open>ms.allocOut\<close> (likewise), \<open>req.fdData.Bytes\<close>, \<open>req.serializeHeader\<close> and
  \<open>ToStatus\<close>.
\<close>

record ('fd, 'rr) helpers =
  flatDataSize :: "('fd, 'rr) request \<Rightarrow> int"
  trySplice :: "Server \<Rightarrow> ('fd, 'rr) request \<Rightarrow> 'fd \<Rightarrow> error \<times> ('fd, 'rr) request"
  allocOut :: "Server \<Rightarrow> ('fd, 'rr) request \<Rightarrow> 32 word \<Rightarrow> 8 word list \<times> ('fd, 'rr) request"
  Bytes :: "'fd \<Rightarrow> 8 word list \<Rightarrow> 8 word list \<times> int"
  serializeHeader :: "('fd, 'rr) request \<Rightarrow> int \<Rightarrow> ('fd, 'rr) request"
  ToStatus :: "error \<Rightarrow> int"

definition OK :: int where
  "OK = 0"

type_synonym ('fd, 'rr) outcome = "(panic + (int \<times> ('fd, 'rr) request \<times> world)) option"

text \<open>
  The first branch of both versions: no flat data, the output buffer alone is written,
  inside the retry loop.
\<close>

definition writeHeaderOnly ::
  "('fd, 'rr) helpers \<Rightarrow> Server \<Rightarrow> ('fd, 'rr) request \<Rightarrow> world \<Rightarrow> ('fd, 'rr) outcome" where
  "writeHeaderOnly h ms req w =
     (case handleEINTR (syscall_Write (mountFd ms) (outputBuf req)) w of
        None \<Rightarrow> None
      | Some (err, w') \<Rightarrow> Some (Inr (ToStatus h err, req, w')))"

text \<open>
  The block both versions run for an fd-backed payload: a buffer of the flat data size
  (converted to \<open>uint32\<close>) from the pool, the payload read into it, the result stored in
  \<open>flatData\<close> and \<open>status\<close>, and the header serialized again for the length read.
\<close>

definition readFdData ::
  "('fd, 'rr) helpers \<Rightarrow> Server \<Rightarrow> ('fd, 'rr) request \<Rightarrow> 'fd \<Rightarrow> world \<Rightarrow>
     ('fd, 'rr) request \<times> world" where
  "readFdData h ms req fd w =
     (let sz = flatDataSize h req;
          (buf, req1) = allocOut h ms req (word_of_int sz);
          (data, st) = Bytes h fd buf;
          req2 = req1\<lparr>flatData := data, status := st\<rparr>
      in (serializeHeader h req2 (int (length (flatData req2))),
          emit [AllocOut (word_of_int sz), FdBytes] w))"

text \<open>
  The end of both versions: one \<open>writev\<close> of the output buffer and the flat data, then
  \<open>Done\<close> when there is a read result, and the status made from the error of the writev.
\<close>

definition doneIfPresent :: "('fd, 'rr) request \<Rightarrow> world \<Rightarrow> world" where
  "doneIfPresent req w = (if readResult req \<noteq> None then emit [Done] w else w)"

definition writevReply ::
  "('fd, 'rr) helpers \<Rightarrow> Server \<Rightarrow> ('fd, 'rr) request \<Rightarrow> world \<Rightarrow> ('fd, 'rr) outcome" where
  "writevReply h ms req w =
     (case writev (mountFd ms) [outputBuf req, flatData req] w of
        None \<Rightarrow> None
      | Some (err, w') \<Rightarrow> Some (Inr (ToStatus h err, req, doneIfPresent req w')))"

text \<open>
  \<open>systemWrite\<close> of the Linux build. After a successful splice \<open>Done\<close> is called without
  a nil check.
\<close>

definition systemWrite_linux ::
  "('fd, 'rr) helpers \<Rightarrow> Server \<Rightarrow> ('fd, 'rr) request \<Rightarrow> world \<Rightarrow> ('fd, 'rr) outcome" where
  "systemWrite_linux h ms req w =
     (if flatDataSize h req = 0 then writeHeaderOnly h ms req w
      else case fdData req of
        None \<Rightarrow> writevReply h ms req w
      | Some fd \<Rightarrow>
          if canSplice ms then
            (case trySplice h ms req fd of
               (err, req') \<Rightarrow>
                 if err = None then
                   (if readResult req' = None then Some (Inl NilDereference)
                    else Some (Inr (OK, req', emit [TrySplice, Done] w)))
                 else
                   (case readFdData h ms req' fd (emit [TrySplice, Println err] w) of
                      (req'', w') \<Rightarrow> writevReply h ms req'' w'))
          else
            (case readFdData h ms req fd w of
               (req'', w') \<Rightarrow> writevReply h ms req'' w'))"

text \<open>\<open>systemWrite\<close> of the build for every other platform (\<open>//go:build !linux\<close>).\<close>

definition systemWrite_other ::
  "('fd, 'rr) helpers \<Rightarrow> Server \<Rightarrow> ('fd, 'rr) request \<Rightarrow> world \<Rightarrow> ('fd, 'rr) outcome" where
  "systemWrite_other h ms req w =
     (if flatDataSize h req = 0 then writeHeaderOnly h ms req w
      else case fdData req of
        None \<Rightarrow> writevReply h ms req w
      | Some fd \<Rightarrow>
          (case readFdData h ms req fd w of
             (req'', w') \<Rightarrow> writevReply h ms req'' w'))"

text \<open>
  The kernel interrupts the next \<open>n\<close> write system calls and answers the one after them
  with something else (success or another error); and the world after \<open>k\<close> attempts of
  the same system call.
\<close>

definition interrupted :: "world \<Rightarrow> nat \<Rightarrow> bool" where
  "interrupted w n = ((\<forall>i<n. answers w (clock w + i) = Some EINTR) \<and>
                      answers w (clock w + n) \<noteq> Some EINTR)"

definition after_attempts :: "event \<Rightarrow> nat \<Rightarrow> world \<Rightarrow> world" where
  "after_attempts ev k w = w\<lparr>trace := trace w @ replicate k ev, clock := clock w + k\<rparr>"

text \<open>How often \<open>readResult.Done\<close> is called in a run of events.\<close>

definition calls_Done :: "event list \<Rightarrow> nat" where
  "calls_Done evs = length (filter (\<lambda>e. e = Done) evs)"

text \<open>What an observer of the mount descriptor and of the read result sees of an outcome.\<close>

definition observe :: "('fd, 'rr) outcome \<Rightarrow> (panic + (int \<times> event list)) option" where
  "observe r = map_option (map_sum id (\<lambda>(st, req, w). (st, trace w))) r"

text \<open>
  Concrete helpers, for running the model: a payload is a descriptor, an offset and a
  size; the flat data size is the payload's size when there is one and the length of
  \<open>flatData\<close> otherwise; the payload reads as that many bytes \<open>0x2A\<close>; the header is four
  bytes, the first of them the total length; splicing fails with EINVAL.
\<close>

record payload =
  pfd :: int
  poff :: int
  psz :: int

definition demo_helpers :: "(payload, unit) helpers" where
  "demo_helpers =
     \<lparr>flatDataSize = (\<lambda>r. case fdData r of Some d \<Rightarrow> psz d | None \<Rightarrow> int (length (flatData r))),
      trySplice = (\<lambda>ms r d. (Some (Errno 22), r)),
      allocOut = (\<lambda>ms r n. (replicate (unat n) 0, r)),
      Bytes = (\<lambda>d buf. (replicate (min (nat (psz d)) (length buf)) 0x2A, 0)),
      serializeHeader = (\<lambda>r n. r\<lparr>outputBuf := [word_of_int (4 + n), 0, 0, 0]\<rparr>),
      ToStatus = (\<lambda>e. case e of None \<Rightarrow> 0 | Some (Errno n) \<Rightarrow> int n | Some (ErrOther _) \<Rightarrow> 38)\<rparr>"

definition demo_server :: Server where
  "demo_server = \<lparr>mountFd = 3, canSplice = False\<rparr>"

definition splicing_server :: Server where
  "splicing_server = \<lparr>mountFd = 3, canSplice = True\<rparr>"

text \<open>
  Three replies: an empty read result (no flat data), a read result held in memory, and
  fd-backed payloads of two bytes and of no byte.
\<close>

definition empty_reply :: "(payload, unit) request" where
  "empty_reply =
     \<lparr>outputBuf = [4, 0, 0, 0], flatData = [], fdData = None, readResult = Some (), status = 0\<rparr>"

definition flat_reply :: "(payload, unit) request" where
  "flat_reply =
     \<lparr>outputBuf = [6, 0, 0, 0], flatData = [7, 8], fdData = None, readResult = Some (), status = 0\<rparr>"

definition fd_reply :: "int \<Rightarrow> (payload, unit) request" where
  "fd_reply n =
     \<lparr>outputBuf = [4, 0, 0, 0], flatData = [],
      fdData = Some \<lparr>pfd = 9, poff = 0, psz = n\<rparr>, readResult = Some (), status = 0\<rparr>"

text \<open>A kernel that accepts every write, and one that interrupts the first two attempts.\<close>

definition calm_world :: world where
  "calm_world = \<lparr>trace = [], answers = (\<lambda>_. None), clock = 0\<rparr>"

definition stormy_world :: world where
  "stormy_world = \<lparr>trace = [], answers = (\<lambda>i. if i < 2 then Some EINTR else None), clock = 0\<rparr>"

section \<open>The request life cycle and the mount sequence\<close>

text \<open>
  The values of \<open>syscall.Errno\<close> that the documentation of package fs and the spec name.
  Their numbers differ between platforms, so they are kept symbolic.
\<close>

datatype errno = fs_OK | fs_ENOTSUP | fs_ENOATTR | fs_EROFS | fs_EINTR | fs_ENOSYS | fs_Errno nat

text \<open>
  Modelled from the spec: the request life cycle of the session server is not part of the
  embedded files, which hold the doc comment on interrupts only. The spec (4.4 and 5):
  ``the dispatcher maintains a map unique-ID to request (inserted on receipt, removed on
  reply). On INTERRUPT, sets the target's cancelled flag; there is no reply to INTERRUPT
  itself. If the target has already completed, the interrupt is a no-op.'' The session
  is the in-flight map, holding the cancelled flag of each request, and the replies
  written so far. The messages are the arrival of a request, an INTERRUPT for a unique
  ID, and the return of the handler of a request with its errno.

  The spec states the status of the reply to a cancelled request in two ways: ``the
  reply is EINTR and the handler's own return is discarded'' (4.4, step 4), and
  ``handler errors are returned verbatim'', the reply being EINTR ``provided the user
  handler returns an EINTR errno'' (5 and 7). The flag \<open>discard\<close> chooses between them.
\<close>

record session =
  inflight :: "nat \<Rightarrow> bool option"
  replies :: "(nat \<times> errno) list"

datatype message = Request nat | INTERRUPT nat | HandlerReturns nat errno

definition reply_status :: "bool \<Rightarrow> bool \<Rightarrow> errno \<Rightarrow> errno" where
  "reply_status discard cancelled e = (if discard \<and> cancelled then fs_EINTR else e)"

fun step :: "bool \<Rightarrow> message \<Rightarrow> session \<Rightarrow> session" where
  "step discard (Request u) s = s\<lparr>inflight := (inflight s)(u \<mapsto> False)\<rparr>"
| "step discard (INTERRUPT u) s =
     (case inflight s u of
        None \<Rightarrow> s
      | Some _ \<Rightarrow> s\<lparr>inflight := (inflight s)(u \<mapsto> True)\<rparr>)"
| "step discard (HandlerReturns u e) s =
     (case inflight s u of
        None \<Rightarrow> s
      | Some cancelled \<Rightarrow>
          s\<lparr>inflight := (inflight s)(u := None),
            replies := replies s @ [(u, reply_status discard cancelled e)]\<rparr>)"

fun run :: "bool \<Rightarrow> message list \<Rightarrow> session \<Rightarrow> session" where
  "run discard [] s = s"
| "run discard (m # ms) s = run discard ms (step discard m s)"

definition new_session :: session where
  "new_session = \<lparr>inflight = (\<lambda>_. None), replies = []\<rparr>"

text \<open>The replies written for a unique ID, and the requests received with it.\<close>

definition replies_to :: "nat \<Rightarrow> session \<Rightarrow> nat" where
  "replies_to u s = length (filter (\<lambda>r. fst r = u) (replies s))"

definition requests_of :: "nat \<Rightarrow> message list \<Rightarrow> nat" where
  "requests_of u ms = length (filter (\<lambda>m. m = Request u) ms)"

definition pending :: "nat \<Rightarrow> session \<Rightarrow> nat" where
  "pending u s = (case inflight s u of None \<Rightarrow> 0 | Some _ \<Rightarrow> 1)"





section \<open>Properties of the poll hack\<close>

lemma pollHack_granted:
  assumes "k_open k (Join k mp (pollHackName k)) O_RDONLY 0 = (fd, 0)"
  shows "pollHack k mp =
     Inr (None, [Open (Join k mp (pollHackName k)) O_RDONLY 0,
                 Poll [\<lparr>Fd = word_of_int fd, Events = 7, Revents = 0\<rparr>] 0,
                 Close fd])"
  using assms
  by (simp add: pollHack_def syscall_Open_def sysPoll_def errnoErr_def Let_def
      POLLIN_def POLLPRI_def POLLOUT_def split: prod.splits)

lemma pollHack_denied:
  assumes "k_open k (Join k mp (pollHackName k)) O_RDONLY 0 = (fd, e)" and "e \<noteq> 0"
  shows "pollHack k mp =
     Inr (if e = 1 then None else Some (Errno e), [Open (Join k mp (pollHackName k)) O_RDONLY 0])"
  using assms
  by (simp add: pollHack_def syscall_Open_def errnoErr_def EPERM_def)

lemma syscall_Open_cases:
  assumes "syscall_Open k path mode perm = ((fd, err), tr)"
  shows "tr = [Open path mode perm] \<and>
         (\<exists>e. k_open k path mode perm = (fd, e) \<and> err = errnoErr e)"
  using assms by (auto simp: syscall_Open_def split: prod.splits)

text \<open>
  C10. \<open>pollHack\<close> treats a sandboxing denial as success: when opening the probe file
  fails with EPERM it returns nil; when the open fails with any other error it returns
  that error; and when the open succeeds, the last system call before it returns nil
  closes the probe descriptor.
\<close>

theorem pollHack_open_outcomes:
  assumes "syscall_Open k (Join k mp (pollHackName k)) O_RDONLY 0 = ((fd, err), tr)"
  shows "(err = Some EPERM \<longrightarrow> pollHack k mp = Inr (None, tr)) \<and>
         (err \<noteq> None \<and> err \<noteq> Some EPERM \<longrightarrow> pollHack k mp = Inr (err, tr)) \<and>
         (err = None \<longrightarrow> (\<exists>tr'. pollHack k mp = Inr (None, tr' @ [Close fd])))"
proof -
  from syscall_Open_cases [OF assms] obtain e where
    tr: "tr = [Open (Join k mp (pollHackName k)) O_RDONLY 0]" and
    ko: "k_open k (Join k mp (pollHackName k)) O_RDONLY 0 = (fd, e)" and
    err: "err = errnoErr e"
    by blast
  show ?thesis
  proof (cases "e = 0")
    case True
    with ko have "pollHack k mp =
      Inr (None, [Open (Join k mp (pollHackName k)) O_RDONLY 0,
                  Poll [\<lparr>Fd = word_of_int fd, Events = 7, Revents = 0\<rparr>] 0] @ [Close fd])"
      by (simp add: pollHack_granted)
    then have "\<exists>tr'. pollHack k mp = Inr (None, tr' @ [Close fd])"
      by blast
    with True err show ?thesis
      by (simp add: errnoErr_def)
  next
    case False
    with ko have "pollHack k mp = Inr (if e = 1 then None else Some (Errno e), tr)"
      unfolding tr by (rule pollHack_denied)
    with False err show ?thesis
      by (simp add: errnoErr_def EPERM_def)
  qed
qed

theorem pollHack_open_outcomes_witness:
  "pollHack sandboxed_kernel ''/mnt'' = Inr (None, [Open ''/mnt/.go-fuse-epoll-hack'' 0 0]) \<and>
   pollHack enoent_kernel ''/mnt'' = Inr (Some (Errno 2), [Open ''/mnt/.go-fuse-epoll-hack'' 0 0]) \<and>
   (\<exists>tr'. pollHack granting_kernel ''/mnt'' = Inr (None, tr' @ [Close 5]))"
proof -
  have a: "syscall_Open sandboxed_kernel
      (Join sandboxed_kernel ''/mnt'' (pollHackName sandboxed_kernel)) O_RDONLY 0 =
      ((-1, Some EPERM), [Open ''/mnt/.go-fuse-epoll-hack'' 0 0])"
    by (simp add: syscall_Open_def sandboxed_kernel_def errnoErr_def EPERM_def O_RDONLY_def)
  have b: "syscall_Open enoent_kernel
      (Join enoent_kernel ''/mnt'' (pollHackName enoent_kernel)) O_RDONLY 0 =
      ((-1, Some (Errno 2)), [Open ''/mnt/.go-fuse-epoll-hack'' 0 0])"
    by (simp add: syscall_Open_def enoent_kernel_def errnoErr_def O_RDONLY_def)
  have c: "syscall_Open granting_kernel
      (Join granting_kernel ''/mnt'' (pollHackName granting_kernel)) O_RDONLY 0 =
      ((5, None), [Open ''/mnt/.go-fuse-epoll-hack'' 0 0])"
    by (simp add: syscall_Open_def granting_kernel_def errnoErr_def O_RDONLY_def)
  show ?thesis
    using pollHack_open_outcomes [OF a] pollHack_open_outcomes [OF b]
      pollHack_open_outcomes [OF c]
    by (simp add: EPERM_def)
qed






section \<open>Properties of the xattr shims\<close>

lemma cap_kwrite_empty: "cap (kwrite bs (make_bytes 0)) = 0"
  by (simp add: cap_def kwrite_def make_bytes_def)

lemma ListXAttr_empty_list:
  assumes "\<not> hasNUL path" and "k_listxattr k n path 0 = (0, 0, bs)"
  shows "ListXAttr k n path = Some (Inl SliceBoundsOutOfRange)"
proof -
  have first: "listxattr k n path (make_bytes 0) = ((0, 0), kwrite bs (make_bytes 0), Suc n)"
    using assms by (simp add: listxattr_def make_bytes_def)
  have loop: "ListXAttr_loop k (Suc n) path (kwrite bs (make_bytes 0)) 0 0 =
      Some (kwrite bs (make_bytes 0), 0, 0, Suc n)"
    by (subst ListXAttr_loop.simps) (simp add: cap_kwrite_empty)
  have cut: "slice_upto (kwrite bs (make_bytes 0)) (- 1) = Inl SliceBoundsOutOfRange"
    by (simp add: slice_upto_def)
  show ?thesis
    by (simp add: ListXAttr_def first loop cut)
qed

text \<open>
  C8. The claim is that the shims return a result and an errno, rather than failing, when
  \<open>GetXAttr\<close> is given an empty buffer, when \<open>Setxattr\<close> is given empty data, and when
  \<open>ListXAttr\<close> meets an empty attribute list. The code panics in all three cases, for
  every path and attribute that \<open>BytePtrFromString\<close> accepts and whatever the kernel
  would answer: the first two take the address of element 0 of an empty slice, the third
  slices its buffer to length \<open>sz - 1 = -1\<close>.
\<close>

theorem xattr_shims_panic_on_empty:
  assumes "\<not> hasNUL path" and "\<not> hasNUL attr"
  shows "(len dest = 0 \<longrightarrow> GetXAttr k n path attr dest = Some (Inl IndexOutOfRange)) \<and>
         (len data = 0 \<longrightarrow> Setxattr k n path attr data flags = Inl IndexOutOfRange) \<and>
         (k_listxattr k n path 0 = (0, 0, bs) \<longrightarrow>
            ListXAttr k n path = Some (Inl SliceBoundsOutOfRange))"
proof (intro conjI impI)
  assume "len dest = 0"
  with assms show "GetXAttr k n path attr dest = Some (Inl IndexOutOfRange)"
    by (simp add: GetXAttr_def getxattr_def)
next
  assume "len data = 0"
  with assms show "Setxattr k n path attr data flags = Inl IndexOutOfRange"
    by (simp add: Setxattr_def)
next
  assume "k_listxattr k n path 0 = (0, 0, bs)"
  with assms(1) show "ListXAttr k n path = Some (Inl SliceBoundsOutOfRange)"
    by (rule ListXAttr_empty_list)
qed

theorem xattr_shims_panic_on_empty_witness:
  "GetXAttr one_attr_kernel 0 ''/f'' ''user.a'' (make_bytes 0) = Some (Inl IndexOutOfRange) \<and>
   Setxattr one_attr_kernel 0 ''/f'' ''user.a'' (make_bytes 0) 0 = Inl IndexOutOfRange \<and>
   ListXAttr no_attr_kernel 0 ''/f'' = Some (Inl SliceBoundsOutOfRange)"
proof -
  have p: "\<not> hasNUL ''/f''" and a: "\<not> hasNUL ''user.a''"
    by (simp_all add: hasNUL_def)
  have e: "len (make_bytes 0) = 0"
    by (simp add: make_bytes_def)
  have l: "k_listxattr no_attr_kernel 0 ''/f'' 0 = (0, 0, [])"
    by (simp add: no_attr_kernel_def)
  show ?thesis
    using xattr_shims_panic_on_empty [OF p a, of "make_bytes 0" one_attr_kernel 0 "make_bytes 0" 0]
      xattr_shims_panic_on_empty [OF p a, of _ no_attr_kernel 0 _ _ "[]"] e l
    by simp
qed

section \<open>Properties of the reply writer\<close>

subsection \<open>The retry loop\<close>

lemma attempt_eq: "attempt ev w = (answers w (clock w), after_attempts ev 1 w)"
  by (simp add: attempt_def after_attempts_def)

lemma after_attempts_Suc:
  "after_attempts ev (Suc n) (after_attempts ev 1 w) = after_attempts ev (Suc (Suc n)) w"
  by (simp add: after_attempts_def replicate_app_Cons_same)

lemma answers_after_attempts:
  "answers (after_attempts ev 1 w) (clock (after_attempts ev 1 w) + n) = answers w (clock w + Suc n)"
  by (simp add: after_attempts_def)

lemma interrupted_step:
  assumes "answers w (clock w) = Some EINTR"
    and "interrupted (after_attempts ev 1 w) n"
  shows "interrupted w (Suc n)"
  unfolding interrupted_def
proof (intro conjI allI impI)
  fix i assume "i < Suc n"
  show "answers w (clock w + i) = Some EINTR"
  proof (cases i)
    case 0
    with assms(1) show ?thesis by simp
  next
    case (Suc j)
    with \<open>i < Suc n\<close> have "j < n" by simp
    with assms(2) have "answers w (Suc (clock w) + j) = Some EINTR"
      by (simp add: interrupted_def after_attempts_def)
    with Suc show ?thesis by simp
  qed
next
  from assms(2) show "answers w (clock w + Suc n) \<noteq> Some EINTR"
    by (simp add: interrupted_def after_attempts_def)
qed

lemma interrupted_Suc:
  assumes "interrupted w (Suc n)"
  shows "answers w (clock w) = Some EINTR" and "interrupted (after_attempts ev 1 w) n"
proof -
  from assms have all: "\<forall>i<Suc n. answers w (clock w + i) = Some EINTR"
    and last: "answers w (clock w + Suc n) \<noteq> Some EINTR"
    by (simp_all add: interrupted_def)
  have "0 < Suc n" by simp
  with all have "answers w (clock w + 0) = Some EINTR"
    by blast
  then show "answers w (clock w) = Some EINTR"
    by simp
  have "answers w (Suc (clock w) + i) = Some EINTR" if "i < n" for i
  proof -
    from that have "Suc i < Suc n" by simp
    with all have "answers w (clock w + Suc i) = Some EINTR" by blast
    then show ?thesis by simp
  qed
  with last show "interrupted (after_attempts ev 1 w) n"
    by (simp add: interrupted_def after_attempts_def)
qed

text \<open>
  After \<open>n\<close> interrupted attempts the loop returns the answer to attempt \<open>n + 1\<close>, having
  made exactly \<open>n + 1\<close> attempts.
\<close>

lemma handleEINTR_attempt:
  assumes "interrupted w n"
  shows "handleEINTR (attempt ev) w =
           Some (answers w (clock w + n), after_attempts ev (Suc n) w)"
  using assms
proof (induction n arbitrary: w)
  case 0
  then show ?case
    by (subst handleEINTR.simps) (simp add: attempt_eq interrupted_def)
next
  case (Suc n)
  from Suc.prems have first: "answers w (clock w) = Some EINTR"
    and rest: "interrupted (after_attempts ev 1 w) n"
    by (rule interrupted_Suc)+
  from rest have "handleEINTR (attempt ev) (after_attempts ev 1 w) =
      Some (answers (after_attempts ev 1 w) (clock (after_attempts ev 1 w) + n),
            after_attempts ev (Suc n) (after_attempts ev 1 w))"
    by (rule Suc.IH)
  then have "handleEINTR (attempt ev) (after_attempts ev 1 w) =
      Some (answers w (clock w + Suc n), after_attempts ev (Suc (Suc n)) w)"
    by (simp only: after_attempts_Suc answers_after_attempts)
  with first show ?case
    by (subst handleEINTR.simps) (simp add: attempt_eq)
qed

text \<open>Conversely, the loop returns only in that way.\<close>

lemma handleEINTR_attempt_Some_aux:
  assumes "handleEINTR fn w = Some y"
  shows "fn = attempt ev \<longrightarrow>
     (\<exists>n. interrupted w n \<and> y = (answers w (clock w + n), after_attempts ev (Suc n) w))"
proof (rule handleEINTR.raw_induct
    [where P = "\<lambda>fn w y. fn = attempt ev \<longrightarrow>
       (\<exists>n. interrupted w n \<and> y = (answers w (clock w + n), after_attempts ev (Suc n) w))",
     OF _ assms])
  fix rec :: "(world \<Rightarrow> error \<times> world) \<Rightarrow> world \<Rightarrow> (error \<times> world) option"
  fix fn w y
  assume IH: "\<And>fn w y. rec fn w = Some y \<Longrightarrow> fn = attempt ev \<longrightarrow>
       (\<exists>n. interrupted w n \<and> y = (answers w (clock w + n), after_attempts ev (Suc n) w))"
    and step: "(case fn w of (err, w') \<Rightarrow>
                  if err = Some EINTR then rec fn w' else Some (err, w')) = Some y"
  show "fn = attempt ev \<longrightarrow>
       (\<exists>n. interrupted w n \<and> y = (answers w (clock w + n), after_attempts ev (Suc n) w))"
  proof
    assume fn: "fn = attempt ev"
    show "\<exists>n. interrupted w n \<and> y = (answers w (clock w + n), after_attempts ev (Suc n) w)"
    proof (cases "answers w (clock w) = Some EINTR")
      case False
      with step fn have "y = (answers w (clock w + 0), after_attempts ev (Suc 0) w)"
        by (simp add: attempt_eq)
      moreover from False have "interrupted w 0"
        by (simp add: interrupted_def)
      ultimately show ?thesis
        by (intro exI [of _ 0] conjI)
    next
      case True
      with step fn have "rec fn (after_attempts ev 1 w) = Some y"
        by (simp add: attempt_eq)
      from IH [OF this, THEN mp, OF fn] obtain n where
        n: "interrupted (after_attempts ev 1 w) n" and
        y: "y = (answers (after_attempts ev 1 w) (clock (after_attempts ev 1 w) + n),
                 after_attempts ev (Suc n) (after_attempts ev 1 w))"
        by (elim exE conjE)
      from True n have "interrupted w (Suc n)"
        by (rule interrupted_step)
      moreover from y have "y = (answers w (clock w + Suc n), after_attempts ev (Suc (Suc n)) w)"
        by (simp only: after_attempts_Suc answers_after_attempts)
      ultimately show ?thesis
        by (intro exI [of _ "Suc n"] conjI)
    qed
  qed
qed

lemma handleEINTR_attempt_Some:
  assumes "handleEINTR (attempt ev) w = Some y"
  obtains n where "interrupted w n"
    and "y = (answers w (clock w + n), after_attempts ev (Suc n) w)"
  using handleEINTR_attempt_Some_aux [OF assms, of ev] by blast

text \<open>A kernel that interrupts every attempt keeps the loop running for ever.\<close>

lemma handleEINTR_diverges:
  assumes "\<forall>i. answers w (clock w + i) = Some EINTR"
  shows "handleEINTR (attempt ev) w = None"
proof (cases "handleEINTR (attempt ev) w")
  case None
  then show ?thesis .
next
  case (Some y)
  then obtain n where "interrupted w n"
    by (rule handleEINTR_attempt_Some)
  with assms show ?thesis
    by (simp add: interrupted_def)
qed

subsection \<open>The three paths of \<open>systemWrite\<close>\<close>

lemma interrupted_emit [simp]: "interrupted (emit evs w) n = interrupted w n"
  by (simp add: interrupted_def emit_def)

lemma answers_emit [simp]: "answers (emit evs w) = answers w"
  by (simp add: emit_def)

lemma clock_emit [simp]: "clock (emit evs w) = clock w"
  by (simp add: emit_def)

lemma trace_emit [simp]: "trace (emit evs w) = trace w @ evs"
  by (simp add: emit_def)

lemma trace_after_attempts [simp]: "trace (after_attempts ev k w) = trace w @ replicate k ev"
  by (simp add: after_attempts_def)

lemma trace_doneIfPresent:
  "trace (doneIfPresent req w) = trace w @ (if readResult req \<noteq> None then [Done] else [])"
  by (simp add: doneIfPresent_def)

lemma writeHeaderOnly_interrupted:
  assumes "interrupted w n"
  shows "writeHeaderOnly h ms req w =
     Some (Inr (ToStatus h (answers w (clock w + n)), req,
                after_attempts (SysWrite (mountFd ms) (outputBuf req)) (Suc n) w))"
  by (simp add: writeHeaderOnly_def syscall_Write_def handleEINTR_attempt [OF assms])

lemma writevReply_interrupted:
  assumes "interrupted w n"
  shows "writevReply h ms req w =
     Some (Inr (ToStatus h (answers w (clock w + n)), req,
                doneIfPresent req
                  (after_attempts (SysWritev (mountFd ms) [outputBuf req, flatData req]) (Suc n) w)))"
  by (simp add: writevReply_def writev_def sys_writev_def handleEINTR_attempt [OF assms])

lemma writevReply_Some:
  assumes "writevReply h ms req w = Some (Inr (st, req', w'))"
  obtains n where "interrupted w n"
    and "st = ToStatus h (answers w (clock w + n))"
    and "req' = req"
    and "w' = doneIfPresent req
           (after_attempts (SysWritev (mountFd ms) [outputBuf req, flatData req]) (Suc n) w)"
proof -
  from assms obtain err w1 where
    wv: "handleEINTR (attempt (SysWritev (mountFd ms) [outputBuf req, flatData req])) w = Some (err, w1)"
    and res: "st = ToStatus h err" "req' = req" "w' = doneIfPresent req w1"
    by (auto simp: writevReply_def writev_def sys_writev_def split: option.splits)
  from wv obtain n where "interrupted w n"
    and "(err, w1) = (answers w (clock w + n),
           after_attempts (SysWritev (mountFd ms) [outputBuf req, flatData req]) (Suc n) w)"
    by (rule handleEINTR_attempt_Some)
  with res that show ?thesis
    by simp
qed

lemma readFdData_eq:
  assumes "allocOut h ms req (word_of_int (flatDataSize h req)) = (buf, req1)"
    and "Bytes h fd buf = (data, st)"
  shows "readFdData h ms req fd w =
     (serializeHeader h (req1\<lparr>flatData := data, status := st\<rparr>) (int (length data)),
      emit [AllocOut (word_of_int (flatDataSize h req)), FdBytes] w)"
  using assms by (simp add: readFdData_def Let_def)

lemma readFdData_world:
  "snd (readFdData h ms req fd w) = emit [AllocOut (word_of_int (flatDataSize h req)), FdBytes] w"
  by (simp add: readFdData_def Let_def split: prod.splits)

lemma systemWrite_linux_nosplice:
  assumes "\<not> canSplice ms"
  shows "systemWrite_linux h ms req w = systemWrite_other h ms req w"
  using assms by (simp add: systemWrite_linux_def systemWrite_other_def split: option.splits)

lemma calls_Done_replicate [simp]: "calls_Done (replicate k (SysWritev fd packet)) = 0"
  by (simp add: calls_Done_def)

lemma calls_Done_append [simp]: "calls_Done (xs @ ys) = calls_Done xs + calls_Done ys"
  by (simp add: calls_Done_def)

lemma calls_Done_simps [simp]:
  "calls_Done [] = 0"
  "calls_Done (Done # evs) = Suc (calls_Done evs)"
  "calls_Done (AllocOut n # evs) = calls_Done evs"
  "calls_Done (FdBytes # evs) = calls_Done evs"
  "calls_Done (SysWrite fd buf # evs) = calls_Done evs"
  "calls_Done (SysWritev fd packet # evs) = calls_Done evs"
  "calls_Done (TrySplice # evs) = calls_Done evs"
  "calls_Done (Println e # evs) = calls_Done evs"
  by (simp_all add: calls_Done_def)

lemma systemWrite_other_flat_Some:
  assumes "flatDataSize h req \<noteq> 0"
    and "systemWrite_other h ms req w = Some (Inr (st, req', w'))"
  shows "\<exists>evs. trace w' = trace w @ evs \<and>
               calls_Done evs = (if readResult req' = None then 0 else 1)"
proof (cases "fdData req")
  case None
  with assms have "writevReply h ms req w = Some (Inr (st, req', w'))"
    by (simp add: systemWrite_other_def)
  then obtain n where "req' = req"
    and "w' = doneIfPresent req
           (after_attempts (SysWritev (mountFd ms) [outputBuf req, flatData req]) (Suc n) w)"
    by (rule writevReply_Some)
  then have "trace w' = trace w @
      (replicate (Suc n) (SysWritev (mountFd ms) [outputBuf req', flatData req']) @
       (if readResult req' \<noteq> None then [Done] else []))"
    by (simp add: trace_doneIfPresent)
  moreover have "calls_Done
      (replicate (Suc n) (SysWritev (mountFd ms) [outputBuf req', flatData req']) @
       (if readResult req' \<noteq> None then [Done] else [])) =
      (if readResult req' = None then 0 else 1)"
    by (simp del: replicate.simps)
  ultimately show ?thesis
    by blast
next
  case (Some fd)
  obtain req2 w2 where rd: "readFdData h ms req fd w = (req2, w2)"
    by (cases "readFdData h ms req fd w")
  with readFdData_world [of h ms req fd w]
  have w2: "w2 = emit [AllocOut (word_of_int (flatDataSize h req)), FdBytes] w"
    by simp
  from assms Some rd have "writevReply h ms req2 w2 = Some (Inr (st, req', w'))"
    by (simp add: systemWrite_other_def)
  then obtain n where "req' = req2"
    and "w' = doneIfPresent req2
           (after_attempts (SysWritev (mountFd ms) [outputBuf req2, flatData req2]) (Suc n) w2)"
    by (rule writevReply_Some)
  with w2 have "trace w' = trace w @
      ([AllocOut (word_of_int (flatDataSize h req)), FdBytes] @
       replicate (Suc n) (SysWritev (mountFd ms) [outputBuf req', flatData req']) @
       (if readResult req' \<noteq> None then [Done] else []))"
    by (simp add: trace_doneIfPresent)
  moreover have "calls_Done
      ([AllocOut (word_of_int (flatDataSize h req)), FdBytes] @
       replicate (Suc n) (SysWritev (mountFd ms) [outputBuf req', flatData req']) @
       (if readResult req' \<noteq> None then [Done] else [])) =
      (if readResult req' = None then 0 else 1)"
    by (simp del: replicate.simps)
  ultimately show ?thesis
    by blast
qed

subsection \<open>Running the model\<close>

lemma interrupted_calm: "interrupted (emit evs calm_world) 0"
  by (simp add: interrupted_def calm_world_def)

lemma interrupted_stormy: "interrupted stormy_world 2"
  by (auto simp: interrupted_def stormy_world_def EINTR_def)

lemma demo_flatDataSize:
  "flatDataSize demo_helpers empty_reply = 0"
  "flatDataSize demo_helpers flat_reply = 2"
  "flatDataSize demo_helpers (fd_reply n) = n"
  by (simp_all add: demo_helpers_def empty_reply_def flat_reply_def fd_reply_def)

lemma demo_fdData:
  "fdData flat_reply = None"
  by (simp add: flat_reply_def)

lemma demo_readFdData:
  "readFdData demo_helpers ms (fd_reply 2) \<lparr>pfd = 9, poff = 0, psz = 2\<rparr> w =
     ((fd_reply 2)\<lparr>flatData := [0x2A, 0x2A], status := 0, outputBuf := [6, 0, 0, 0]\<rparr>,
      emit [AllocOut 2, FdBytes] w)"
  by (simp add: readFdData_def demo_helpers_def fd_reply_def Let_def) (simp add: numeral_2_eq_2)

subsection \<open>The claims about the reply writer\<close>

text \<open>
  C2. A write system call on the mount descriptor that fails with EINTR is retried
  until it succeeds or fails with another errno, for the single-buffer write of a reply
  without flat data and for the writev of header and data alike: when the kernel
  interrupts \<open>n\<close> attempts and answers the next one with \<open>a\<close>, \<open>systemWrite\<close> makes
  exactly \<open>n + 1\<close> attempts of the same system call and returns the status of \<open>a\<close>.
\<close>

theorem systemWrite_retries_EINTR:
  assumes "interrupted w n"
  shows "(flatDataSize h req = 0 \<longrightarrow>
            systemWrite_linux h ms req w =
              Some (Inr (ToStatus h (answers w (clock w + n)), req,
                         after_attempts (SysWrite (mountFd ms) (outputBuf req)) (Suc n) w))) \<and>
         (flatDataSize h req \<noteq> 0 \<and> fdData req = None \<longrightarrow>
            systemWrite_linux h ms req w =
              Some (Inr (ToStatus h (answers w (clock w + n)), req,
                         doneIfPresent req
                           (after_attempts (SysWritev (mountFd ms) [outputBuf req, flatData req])
                              (Suc n) w)))) \<and>
         (flatDataSize h req \<noteq> 0 \<and> fdData req = Some fd \<and> \<not> canSplice ms \<and>
          readFdData h ms req fd w = (req2, w2) \<longrightarrow>
            systemWrite_linux h ms req w =
              Some (Inr (ToStatus h (answers w (clock w + n)), req2,
                         doneIfPresent req2
                           (after_attempts (SysWritev (mountFd ms) [outputBuf req2, flatData req2])
                              (Suc n) w2)))) \<and>
         (flatDataSize h req \<noteq> 0 \<and> fdData req = Some fd \<and> canSplice ms \<and>
          trySplice h ms req fd = (Some e, req') \<and>
          readFdData h ms req' fd (emit [TrySplice, Println (Some e)] w) = (req2, w2) \<longrightarrow>
            systemWrite_linux h ms req w =
              Some (Inr (ToStatus h (answers w (clock w + n)), req2,
                         doneIfPresent req2
                           (after_attempts (SysWritev (mountFd ms) [outputBuf req2, flatData req2])
                              (Suc n) w2))))"
proof (intro conjI impI)
  assume "flatDataSize h req = 0"
  then show "systemWrite_linux h ms req w =
      Some (Inr (ToStatus h (answers w (clock w + n)), req,
                 after_attempts (SysWrite (mountFd ms) (outputBuf req)) (Suc n) w))"
    by (simp add: systemWrite_linux_def writeHeaderOnly_interrupted [OF assms])
next
  assume "flatDataSize h req \<noteq> 0 \<and> fdData req = None"
  then show "systemWrite_linux h ms req w =
      Some (Inr (ToStatus h (answers w (clock w + n)), req,
                 doneIfPresent req
                   (after_attempts (SysWritev (mountFd ms) [outputBuf req, flatData req])
                      (Suc n) w)))"
    by (simp add: systemWrite_linux_def writevReply_interrupted [OF assms])
next
  assume a: "flatDataSize h req \<noteq> 0 \<and> fdData req = Some fd \<and> \<not> canSplice ms \<and>
             readFdData h ms req fd w = (req2, w2)"
  with readFdData_world [of h ms req fd w]
  have w2: "w2 = emit [AllocOut (word_of_int (flatDataSize h req)), FdBytes] w"
    by simp
  with assms have "interrupted w2 n"
    by simp
  then have "writevReply h ms req2 w2 =
      Some (Inr (ToStatus h (answers w2 (clock w2 + n)), req2,
                 doneIfPresent req2
                   (after_attempts (SysWritev (mountFd ms) [outputBuf req2, flatData req2])
                      (Suc n) w2)))"
    by (rule writevReply_interrupted)
  moreover have "answers w2 (clock w2 + n) = answers w (clock w + n)"
    by (simp add: w2)
  ultimately show "systemWrite_linux h ms req w =
      Some (Inr (ToStatus h (answers w (clock w + n)), req2,
                 doneIfPresent req2
                   (after_attempts (SysWritev (mountFd ms) [outputBuf req2, flatData req2])
                      (Suc n) w2)))"
    using a by (simp add: systemWrite_linux_def)
next
  assume a: "flatDataSize h req \<noteq> 0 \<and> fdData req = Some fd \<and> canSplice ms \<and>
             trySplice h ms req fd = (Some e, req') \<and>
             readFdData h ms req' fd (emit [TrySplice, Println (Some e)] w) = (req2, w2)"
  with readFdData_world [of h ms req' fd "emit [TrySplice, Println (Some e)] w"]
  have w2: "w2 = emit [AllocOut (word_of_int (flatDataSize h req')), FdBytes]
                   (emit [TrySplice, Println (Some e)] w)"
    by simp
  with assms have "interrupted w2 n"
    by simp
  then have "writevReply h ms req2 w2 =
      Some (Inr (ToStatus h (answers w2 (clock w2 + n)), req2,
                 doneIfPresent req2
                   (after_attempts (SysWritev (mountFd ms) [outputBuf req2, flatData req2])
                      (Suc n) w2)))"
    by (rule writevReply_interrupted)
  moreover have "answers w2 (clock w2 + n) = answers w (clock w + n)"
    by (simp add: w2)
  ultimately show "systemWrite_linux h ms req w =
      Some (Inr (ToStatus h (answers w (clock w + n)), req2,
                 doneIfPresent req2
                   (after_attempts (SysWritev (mountFd ms) [outputBuf req2, flatData req2])
                      (Suc n) w2)))"
    using a by (simp add: systemWrite_linux_def)
qed

theorem systemWrite_retries_EINTR_witness:
  "observe (systemWrite_linux demo_helpers demo_server empty_reply stormy_world) =
     Some (Inr (0, [SysWrite 3 [4, 0, 0, 0], SysWrite 3 [4, 0, 0, 0], SysWrite 3 [4, 0, 0, 0]])) \<and>
   observe (systemWrite_linux demo_helpers demo_server flat_reply stormy_world) =
     Some (Inr (0, [SysWritev 3 [[6, 0, 0, 0], [7, 8]], SysWritev 3 [[6, 0, 0, 0], [7, 8]],
                    SysWritev 3 [[6, 0, 0, 0], [7, 8]], Done]))"
proof -
  have a: "systemWrite_linux demo_helpers demo_server empty_reply stormy_world =
      Some (Inr (ToStatus demo_helpers (answers stormy_world (clock stormy_world + 2)), empty_reply,
                 after_attempts (SysWrite (mountFd demo_server) (outputBuf empty_reply)) (Suc 2)
                   stormy_world))"
    using systemWrite_retries_EINTR [OF interrupted_stormy, of demo_helpers empty_reply demo_server]
    by (simp add: demo_flatDataSize)
  have b: "systemWrite_linux demo_helpers demo_server flat_reply stormy_world =
      Some (Inr (ToStatus demo_helpers (answers stormy_world (clock stormy_world + 2)), flat_reply,
                 doneIfPresent flat_reply
                   (after_attempts
                      (SysWritev (mountFd demo_server) [outputBuf flat_reply, flatData flat_reply])
                      (Suc 2) stormy_world)))"
    using systemWrite_retries_EINTR [OF interrupted_stormy, of demo_helpers flat_reply demo_server]
      demo_fdData
    by (simp add: demo_flatDataSize)
  have c: "ToStatus demo_helpers (answers stormy_world (clock stormy_world + 2)) = 0"
    by (simp add: demo_helpers_def stormy_world_def)
  show ?thesis
    unfolding a b c
    by (simp add: observe_def trace_doneIfPresent demo_server_def empty_reply_def flat_reply_def
        stormy_world_def numeral_3_eq_3)
qed

text \<open>
  C1, as stated: every reply that carries an fd-backed payload is, when splicing was not
  negotiated, written by the fallback (payload read into a pool buffer, header
  serialized again, one writev of header and data). A payload of size 0 is not: the
  check of the flat data size comes first, and the output buffer alone is written by a
  plain write, without buffer, read or writev.
\<close>

theorem systemWrite_linux_empty_payload_no_fallback:
  "fdData (fd_reply 0) = Some \<lparr>pfd = 9, poff = 0, psz = 0\<rparr> \<and>
   \<not> canSplice demo_server \<and>
   observe (systemWrite_linux demo_helpers demo_server (fd_reply 0) calm_world) =
     Some (Inr (0, [SysWrite 3 [4, 0, 0, 0]]))"
proof -
  have "interrupted calm_world 0"
    using interrupted_calm [of "[]"] by (simp add: emit_def)
  then have "writeHeaderOnly demo_helpers demo_server (fd_reply 0) calm_world =
      Some (Inr (ToStatus demo_helpers (answers calm_world (clock calm_world + 0)), fd_reply 0,
                 after_attempts (SysWrite (mountFd demo_server) (outputBuf (fd_reply 0))) (Suc 0)
                   calm_world))"
    by (rule writeHeaderOnly_interrupted)
  then show ?thesis
    by (simp add: systemWrite_linux_def demo_flatDataSize observe_def)
      (simp add: fd_reply_def demo_server_def demo_helpers_def calm_world_def)
qed

text \<open>
  C1, amended: for every reply that carries an fd-backed payload and whose flat data
  size is not zero, if splicing was not negotiated or the splice attempt failed,
  \<open>systemWrite\<close> takes a buffer of the flat data size from the pool, reads the payload
  into it, stores the bytes read and their status in the request, serializes the header
  again for the number of bytes read, and issues one \<open>writev\<close> of the output buffer and
  the data on the mount descriptor; the status returned is made from the error of that
  \<open>writev\<close>.
\<close>

theorem systemWrite_linux_falls_back:
  assumes "flatDataSize h req \<noteq> 0" and "fdData req = Some fd"
    and "(\<not> canSplice ms \<and> req0 = req \<and> w0 = w) \<or>
         (canSplice ms \<and> trySplice h ms req fd = (Some e, req0) \<and>
          w0 = emit [TrySplice, Println (Some e)] w)"
    and "allocOut h ms req0 (word_of_int (flatDataSize h req0)) = (buf, req1)"
    and "Bytes h fd buf = (data, st)"
    and "serializeHeader h (req1\<lparr>flatData := data, status := st\<rparr>) (int (length data)) = req2"
  shows "systemWrite_linux h ms req w =
     (case writev (mountFd ms) [outputBuf req2, flatData req2]
             (emit [AllocOut (word_of_int (flatDataSize h req0)), FdBytes] w0) of
        None \<Rightarrow> None
      | Some (err, w') \<Rightarrow> Some (Inr (ToStatus h err, req2, doneIfPresent req2 w')))"
proof -
  have rd: "readFdData h ms req0 fd w0 =
      (req2, emit [AllocOut (word_of_int (flatDataSize h req0)), FdBytes] w0)"
    using assms(4,5,6) by (simp add: readFdData_eq)
  from assms(3) show ?thesis
  proof (elim disjE conjE)
    assume "\<not> canSplice ms" and "req0 = req" and "w0 = w"
    with assms(1,2) rd show ?thesis
      by (simp add: systemWrite_linux_def writevReply_def)
  next
    assume "canSplice ms" and "trySplice h ms req fd = (Some e, req0)"
      and "w0 = emit [TrySplice, Println (Some e)] w"
    with assms(1,2) rd show ?thesis
      by (simp add: systemWrite_linux_def writevReply_def)
  qed
qed

theorem systemWrite_linux_falls_back_witness:
  "observe (systemWrite_linux demo_helpers demo_server (fd_reply 2) calm_world) =
     Some (Inr (0, [AllocOut 2, FdBytes, SysWritev 3 [[6, 0, 0, 0], [0x2A, 0x2A]], Done])) \<and>
   observe (systemWrite_linux demo_helpers splicing_server (fd_reply 2) calm_world) =
     Some (Inr (0, [TrySplice, Println (Some (Errno 22)), AllocOut 2, FdBytes,
                    SysWritev 3 [[6, 0, 0, 0], [0x2A, 0x2A]], Done]))"
proof -
  let ?fd = "\<lparr>pfd = 9, poff = 0, psz = 2\<rparr>"
  let ?req2 = "(fd_reply 2)\<lparr>flatData := [0x2A, 0x2A], status := 0, outputBuf := [6, 0, 0, 0]\<rparr>"
  have size: "flatDataSize demo_helpers (fd_reply 2) \<noteq> 0"
    by (simp add: demo_flatDataSize)
  have fd: "fdData (fd_reply 2) = Some ?fd"
    by (simp add: fd_reply_def)
  have alloc: "allocOut demo_helpers ms (fd_reply 2) (word_of_int (flatDataSize demo_helpers (fd_reply 2))) =
      ([0, 0], fd_reply 2)" for ms
    by (simp add: demo_helpers_def fd_reply_def) (simp add: numeral_2_eq_2)
  have bytes: "Bytes demo_helpers ?fd [0, 0] = ([0x2A, 0x2A], 0)"
    by (simp add: demo_helpers_def numeral_2_eq_2)
  have ser: "serializeHeader demo_helpers ((fd_reply 2)\<lparr>flatData := [0x2A, 0x2A], status := 0\<rparr>)
      (int (length [0x2A :: 8 word, 0x2A])) = ?req2"
    by (simp add: demo_helpers_def)
  have plain: "\<not> canSplice demo_server \<and> fd_reply 2 = fd_reply 2 \<and> calm_world = calm_world \<or>
      canSplice demo_server \<and> trySplice demo_helpers demo_server (fd_reply 2) ?fd = (Some e, fd_reply 2) \<and>
      calm_world = emit [TrySplice, Println (Some e)] calm_world" for e
    by (simp add: demo_server_def)
  have failed: "\<not> canSplice splicing_server \<and> fd_reply 2 = fd_reply 2 \<and>
        emit [TrySplice, Println (Some (Errno 22))] calm_world = calm_world \<or>
      canSplice splicing_server \<and>
        trySplice demo_helpers splicing_server (fd_reply 2) ?fd = (Some (Errno 22), fd_reply 2) \<and>
        emit [TrySplice, Println (Some (Errno 22))] calm_world =
          emit [TrySplice, Println (Some (Errno 22))] calm_world"
    by (simp add: splicing_server_def demo_helpers_def)
  have wv: "writev 3 [[6, 0, 0, 0], [0x2A, 0x2A]] (emit evs calm_world) =
      Some (None, after_attempts (SysWritev 3 [[6, 0, 0, 0], [0x2A, 0x2A]]) (Suc 0) (emit evs calm_world))"
    for evs
    using handleEINTR_attempt [OF interrupted_calm [of evs],
        where ev = "SysWritev 3 [[6, 0, 0, 0], [0x2A, 0x2A]]"]
    by (simp add: writev_def sys_writev_def calm_world_def)
  have a: "systemWrite_linux demo_helpers demo_server (fd_reply 2) calm_world =
      (case writev (mountFd demo_server) [outputBuf ?req2, flatData ?req2]
              (emit [AllocOut (word_of_int (flatDataSize demo_helpers (fd_reply 2))), FdBytes] calm_world) of
         None \<Rightarrow> None
       | Some (err, w') \<Rightarrow> Some (Inr (ToStatus demo_helpers err, ?req2, doneIfPresent ?req2 w')))"
    by (rule systemWrite_linux_falls_back [OF size fd plain alloc bytes ser])
  have b: "systemWrite_linux demo_helpers splicing_server (fd_reply 2) calm_world =
      (case writev (mountFd splicing_server) [outputBuf ?req2, flatData ?req2]
              (emit [AllocOut (word_of_int (flatDataSize demo_helpers (fd_reply 2))), FdBytes]
                 (emit [TrySplice, Println (Some (Errno 22))] calm_world)) of
         None \<Rightarrow> None
       | Some (err, w') \<Rightarrow> Some (Inr (ToStatus demo_helpers err, ?req2, doneIfPresent ?req2 w')))"
    by (rule systemWrite_linux_falls_back [OF size fd failed alloc bytes ser])
  have st: "ToStatus demo_helpers None = 0"
    by (simp add: demo_helpers_def)
  have rr: "readResult ?req2 = Some ()"
    by (simp add: fd_reply_def)
  have e2: "emit xs (emit ys w) = emit (ys @ xs) w" for xs ys and w :: world
    by (simp add: emit_def)
  show ?thesis
    unfolding a b
    by (simp add: demo_server_def splicing_server_def demo_flatDataSize e2 wv st observe_def
        trace_doneIfPresent rr)
      (simp add: calm_world_def)
qed

text \<open>
  C9, as stated: both versions call \<open>readResult.Done\<close> exactly once when a read result
  is present. For a reply without flat data (an empty read) that holds a read result,
  the version for the other platforms writes the output buffer and returns without
  calling \<open>Done\<close>.
\<close>

theorem systemWrite_other_empty_reply_no_Done:
  "readResult empty_reply = Some () \<and>
   observe (systemWrite_other demo_helpers demo_server empty_reply calm_world) =
     Some (Inr (0, [SysWrite 3 [4, 0, 0, 0]])) \<and>
   calls_Done [SysWrite 3 [4, 0, 0, 0]] = 0"
proof -
  have "interrupted calm_world 0"
    using interrupted_calm [of "[]"] by (simp add: emit_def)
  then have "writeHeaderOnly demo_helpers demo_server empty_reply calm_world =
      Some (Inr (ToStatus demo_helpers (answers calm_world (clock calm_world + 0)), empty_reply,
                 after_attempts (SysWrite (mountFd demo_server) (outputBuf empty_reply)) (Suc 0)
                   calm_world))"
    by (rule writeHeaderOnly_interrupted)
  then show ?thesis
    by (simp add: systemWrite_other_def demo_flatDataSize observe_def)
      (simp add: empty_reply_def demo_server_def demo_helpers_def calm_world_def)
qed

text \<open>
  C9, amended: on a server without splicing the version for the other platforms and the
  Linux version are the same function of the request and the world: the same status,
  the same request left behind and the same events, among them the same bytes written to
  the mount descriptor. Where the flat data size is not zero, a run that returns has
  called \<open>readResult.Done\<close> exactly once when the request holds a read result, and not
  at all when it holds none.
\<close>

theorem systemWrite_other_refines_linux:
  assumes "\<not> canSplice ms"
  shows "systemWrite_other h ms req w = systemWrite_linux h ms req w \<and>
         (flatDataSize h req \<noteq> 0 \<and> systemWrite_linux h ms req w = Some (Inr (st, req', w')) \<longrightarrow>
            (\<exists>evs. trace w' = trace w @ evs \<and>
                    calls_Done evs = (if readResult req' = None then 0 else 1)))"
proof (intro conjI impI)
  from assms show eq: "systemWrite_other h ms req w = systemWrite_linux h ms req w"
    by (simp add: systemWrite_linux_nosplice)
  assume "flatDataSize h req \<noteq> 0 \<and> systemWrite_linux h ms req w = Some (Inr (st, req', w'))"
  with eq have "flatDataSize h req \<noteq> 0" and "systemWrite_other h ms req w = Some (Inr (st, req', w'))"
    by simp_all
  then show "\<exists>evs. trace w' = trace w @ evs \<and>
                    calls_Done evs = (if readResult req' = None then 0 else 1)"
    by (rule systemWrite_other_flat_Some)
qed

theorem systemWrite_other_refines_linux_witness:
  "systemWrite_other demo_helpers demo_server (fd_reply 2) calm_world =
     systemWrite_linux demo_helpers demo_server (fd_reply 2) calm_world \<and>
   observe (systemWrite_other demo_helpers demo_server (fd_reply 2) calm_world) =
     Some (Inr (0, [AllocOut 2, FdBytes, SysWritev 3 [[6, 0, 0, 0], [0x2A, 0x2A]], Done])) \<and>
   calls_Done [AllocOut 2, FdBytes, SysWritev 3 [[6, 0, 0, 0], [0x2A, 0x2A]], Done] = 1"
proof -
  let ?fd = "\<lparr>pfd = 9, poff = 0, psz = 2\<rparr>"
  let ?req2 = "(fd_reply 2)\<lparr>flatData := [0x2A, 0x2A], status := 0, outputBuf := [6, 0, 0, 0]\<rparr>"
  have ns: "\<not> canSplice demo_server"
    by (simp add: demo_server_def)
  have fd: "fdData (fd_reply 2) = Some ?fd"
    by (simp add: fd_reply_def)
  have "interrupted (emit [AllocOut 2, FdBytes] calm_world) 0"
    by (rule interrupted_calm)
  then have "writevReply demo_helpers demo_server ?req2 (emit [AllocOut 2, FdBytes] calm_world) =
      Some (Inr (ToStatus demo_helpers
                   (answers (emit [AllocOut 2, FdBytes] calm_world)
                      (clock (emit [AllocOut 2, FdBytes] calm_world) + 0)), ?req2,
                 doneIfPresent ?req2
                   (after_attempts (SysWritev (mountFd demo_server) [outputBuf ?req2, flatData ?req2])
                      (Suc 0) (emit [AllocOut 2, FdBytes] calm_world))))"
    by (rule writevReply_interrupted)
  then have run: "observe (systemWrite_other demo_helpers demo_server (fd_reply 2) calm_world) =
      Some (Inr (0, [AllocOut 2, FdBytes, SysWritev 3 [[6, 0, 0, 0], [0x2A, 0x2A]], Done]))"
    by (simp add: systemWrite_other_def demo_flatDataSize fd demo_readFdData observe_def
        trace_doneIfPresent)
      (simp add: fd_reply_def demo_server_def demo_helpers_def calm_world_def)
  from systemWrite_other_refines_linux [OF ns, of demo_helpers "fd_reply 2" calm_world]
  have "systemWrite_other demo_helpers demo_server (fd_reply 2) calm_world =
      systemWrite_linux demo_helpers demo_server (fd_reply 2) calm_world"
    by (rule conjunct1)
  with run show ?thesis
    by simp
qed

section \<open>Properties of the request life cycle\<close>

subsection \<open>Interrupted requests\<close>

lemma step_replies_pending:
  "replies_to u (step d m s) + pending u (step d m s) \<le>
     replies_to u s + pending u s + (if m = Request u then 1 else 0)"
proof (cases m)
  case (Request v)
  then show ?thesis
    by (simp add: replies_to_def pending_def split: option.splits)
next
  case (INTERRUPT v)
  then show ?thesis
    by (simp add: replies_to_def pending_def split: option.splits)
next
  case (HandlerReturns v e)
  then show ?thesis
    by (simp add: replies_to_def pending_def split: option.splits)
qed

lemma requests_of_Cons:
  "requests_of u (m # ms) = (if m = Request u then 1 else 0) + requests_of u ms"
  by (simp add: requests_of_def)

lemma run_replies_pending:
  "replies_to u (run d ms s) + pending u (run d ms s) \<le>
     replies_to u s + pending u s + requests_of u ms"
proof (induction ms arbitrary: s)
  case Nil
  then show ?case
    by (simp add: requests_of_def)
next
  case (Cons m ms)
  have "replies_to u (run d (m # ms) s) + pending u (run d (m # ms) s) \<le>
      replies_to u (step d m s) + pending u (step d m s) + requests_of u ms"
    using Cons.IH [of "step d m s"] by simp
  also have "\<dots> \<le> replies_to u s + pending u s + (if m = Request u then 1 else 0) +
      requests_of u ms"
    using step_replies_pending [of u d m s] by simp
  also have "\<dots> = replies_to u s + pending u s + requests_of u (m # ms)"
    by (simp add: requests_of_Cons)
  finally show ?case .
qed

text \<open>
  C7. Whatever messages arrive in whatever order, a request that was received once gets
  at most one reply for its unique ID, interrupted or not; and when the handler of a
  request whose cancelled flag is set returns EINTR, the reply written for it carries
  EINTR. Both hold under either reading of the spec for the status of a cancelled
  request.
\<close>

theorem interrupted_request_one_reply:
  assumes "requests_of u ms \<le> 1"
  shows "replies_to u (run discard ms new_session) \<le> 1 \<and>
         (inflight s u = Some True \<longrightarrow>
            step discard (HandlerReturns u fs_EINTR) s =
              s\<lparr>inflight := (inflight s)(u := None), replies := replies s @ [(u, fs_EINTR)]\<rparr>)"
proof
  have "replies_to u (run discard ms new_session) + pending u (run discard ms new_session) \<le>
      replies_to u new_session + pending u new_session + requests_of u ms"
    by (rule run_replies_pending)
  also have "\<dots> = requests_of u ms"
    by (simp add: replies_to_def pending_def new_session_def)
  finally show "replies_to u (run discard ms new_session) \<le> 1"
    using assms by simp
  show "inflight s u = Some True \<longrightarrow>
      step discard (HandlerReturns u fs_EINTR) s =
        s\<lparr>inflight := (inflight s)(u := None), replies := replies s @ [(u, fs_EINTR)]\<rparr>"
    by (simp add: reply_status_def)
qed

theorem interrupted_request_one_reply_witness:
  "replies (run True [Request 7, INTERRUPT 7, HandlerReturns 7 fs_EINTR, INTERRUPT 7,
                      HandlerReturns 7 fs_OK] new_session) = [(7, fs_EINTR)] \<and>
   replies (run False [Request 7, INTERRUPT 7, HandlerReturns 7 fs_EINTR, INTERRUPT 7,
                       HandlerReturns 7 fs_OK] new_session) = [(7, fs_EINTR)] \<and>
   replies_to 7 (run False [Request 7, INTERRUPT 7, HandlerReturns 7 fs_EINTR, INTERRUPT 7,
                            HandlerReturns 7 fs_OK] new_session) \<le> 1"
proof -
  have once: "requests_of 7 [Request 7, INTERRUPT 7, HandlerReturns 7 fs_EINTR, INTERRUPT 7,
                             HandlerReturns 7 fs_OK] \<le> 1"
    by (simp add: requests_of_def)
  have "replies (run d [Request 7, INTERRUPT 7, HandlerReturns 7 fs_EINTR, INTERRUPT 7,
                        HandlerReturns 7 fs_OK] new_session) = [(7, fs_EINTR)]" for d
    by (simp add: new_session_def reply_status_def)
  with interrupted_request_one_reply [OF once, of False] show ?thesis
    by simp
qed

end
